theory Spec2Isabelle
  imports Complex_Main "HOL-Library.Monad_Syntax"
begin

section \<open>Data model of the runner engine\<close>

text \<open>
  The engine is the class \<open>GameEngine\<close> of the repository. Its JavaScript numbers are
  IEEE doubles; they are modelled as exact reals (lane indices, the roll timer, the
  cooldown and the floored score as integers), so every statement below is about the
  arithmetic the code writes down, without rounding. The rendering collaborators
  (scene, camera, materials, ground segments, glitter, particles, player rotation,
  scale and visibility) never feed back into the fields modelled here and are left out.
  The player object is created by the constructor and never removed, so the checks
  \<open>if (this.player)\<close> always pass and are not modelled. The three callbacks are modelled
  as logs of the values they were invoked with.
\<close>

datatype GameState = MENU | PLAYING | GAME_OVER

datatype CollisionType = SOLID | JUMP | DUCK | COIN

datatype ReflexAction = ActNone | ActJump | ActDuck

datatype AIAction = RUN | AI_JUMP | AI_DUCK | DODGE | SCANNING

record GameConfig =
  laneWidth :: real
  startSpeed :: real
  maxSpeed :: real
  speedIncrement :: real
  jumpForce :: real
  gravity :: real
  visibilityRange :: real
  fogDensity :: real

definition config :: GameConfig where
  "config = \<lparr> laneWidth = 4, startSpeed = 0.6, maxSpeed = 2.8, speedIncrement = 0.0002,
     jumpForce = 0.38, gravity = 0.020, visibilityRange = 350, fogDensity = 0.008 \<rparr>"

text \<open>An obstacle or coin: the position of its scene object and its \<open>userData\<close>.\<close>

record obstacle =
  pos_x :: real
  pos_z :: real
  ud_active :: bool
  ud_lane :: int
  collisionType :: CollisionType

record LaneAnalysis =
  lane :: int
  isDeadly :: bool
  isBlockedSide :: bool
  action :: ReflexAction
  laneScore :: real
  distanceToThreat :: real
  threatType :: "CollisionType option"
  firstSolidDist :: real

record AIState =
  ai_enabled :: bool
  ai_currentLane :: int
  ai_targetLane :: int
  ai_action :: AIAction
  ai_confidence :: int
  ai_nearestThreatDist :: int
  ai_laneScores :: "real list"

record GameEngine =
  state :: GameState
  score :: int
  distanceTraveled :: real
  gameSpeed :: real
  currentLane :: int
  player_x :: real
  player_y :: real
  playerVelocityY :: real
  isJumping :: bool
  isRolling :: bool
  rollTimer :: int
  autoPilotEnabled :: bool
  lastSafeLane :: int
  aiLaneChangeCooldown :: int
  obstacles :: "obstacle list"
  scoreLog :: "int list"
  gameOverLog :: "int list"
  aiLog :: "AIState list"

definition playerBaseY :: real where
  "playerBaseY = 1"

text \<open>The engine as the constructor leaves it: the field initialisers, the player at (0, 1, 0).\<close>

definition initialEngine :: GameEngine where
  "initialEngine = \<lparr> state = MENU, score = 0, distanceTraveled = 0, gameSpeed = 0,
     currentLane = 0, player_x = 0, player_y = 1, playerVelocityY = 0,
     isJumping = False, isRolling = False, rollTimer = 0, autoPilotEnabled = False,
     lastSafeLane = 0, aiLaneChangeCooldown = 0, obstacles = [],
     scoreLog = [], gameOverLog = [], aiLog = [] \<rparr>"

section \<open>Controls\<close>

definition moveLeft :: "GameEngine \<Rightarrow> GameEngine" where
  "moveLeft g = (if currentLane g > -1 then g\<lparr>currentLane := currentLane g - 1\<rparr> else g)"

definition moveRight :: "GameEngine \<Rightarrow> GameEngine" where
  "moveRight g = (if currentLane g < 1 then g\<lparr>currentLane := currentLane g + 1\<rparr> else g)"

definition setLane :: "int \<Rightarrow> GameEngine \<Rightarrow> GameEngine" where
  "setLane l g = g\<lparr>currentLane := l\<rparr>"

definition jump :: "GameEngine \<Rightarrow> GameEngine" where
  "jump g =
     (if \<not> isJumping g
      then g\<lparr>isJumping := True, playerVelocityY := jumpForce config, isRolling := False\<rparr>
      else g)"

definition roll :: "GameEngine \<Rightarrow> GameEngine" where
  "roll g =
     (if \<not> isJumping g \<and> \<not> isRolling g
      then g\<lparr>isRolling := True, rollTimer := 40\<rparr>
      else g)"

definition toggleAutoPilot :: "bool \<Rightarrow> GameEngine \<Rightarrow> GameEngine" where
  "toggleAutoPilot v g = g\<lparr>autoPilotEnabled := v\<rparr>"

definition gameOver :: "GameEngine \<Rightarrow> GameEngine" where
  "gameOver g = g\<lparr>state := GAME_OVER, gameOverLog := gameOverLog g @ [score g]\<rparr>"

section \<open>Lane analysis\<close>

text \<open>
  One iteration of the loop of \<open>analyzeLane\<close> over the lane's obstacles; the analysis
  record carries the loop's local variables. The engine is read for \<open>isRolling\<close> and
  \<open>isJumping\<close> only.
\<close>

definition analyzeStep :: "GameEngine \<Rightarrow> obstacle \<Rightarrow> LaneAnalysis \<Rightarrow> LaneAnalysis" where
  "analyzeStep g obs a0 =
     (let typ = collisionType obs;
          z = pos_z obs;
          dist = \<bar>z\<bar>;
          a1 = (if z > -4 \<and> z < 5
                then (if typ \<noteq> COIN
                      then a0\<lparr>isBlockedSide := True, laneScore := -999999\<rparr>
                      else a0)
                else a0)
      in if typ = COIN then a1\<lparr>laneScore := laneScore a1 + 50\<rparr>
         else if z < 0 then
           (let a2 = (if dist < distanceToThreat a1
                      then a1\<lparr>distanceToThreat := dist, threatType := Some typ\<rparr>
                      else a1)
            in if typ = SOLID then
                 (let a3 = a2\<lparr>isDeadly := True\<rparr>;
                      a4 = (if dist < firstSolidDist a3 then a3\<lparr>firstSolidDist := dist\<rparr> else a3)
                  in a4\<lparr>laneScore := laneScore a4 - 100000 / (dist + 1)\<rparr>)
               else if typ = JUMP then
                 (let a3 = (if action a2 = ActNone then a2\<lparr>action := ActJump\<rparr> else a2);
                      a4 = a3\<lparr>laneScore := laneScore a3 - 100\<rparr>
                  in if isRolling g \<and> dist < 30 then a4\<lparr>laneScore := laneScore a4 - 5000\<rparr> else a4)
               else if typ = DUCK then
                 (let a3 = (if action a2 = ActNone then a2\<lparr>action := ActDuck\<rparr> else a2);
                      a4 = a3\<lparr>laneScore := laneScore a3 - 100\<rparr>
                  in if isJumping g \<and> dist < 30 then a4\<lparr>laneScore := laneScore a4 - 5000\<rparr> else a4)
               else a2)
         else a1)"

definition initialAnalysis :: "int \<Rightarrow> LaneAnalysis" where
  "initialAnalysis laneIdx = \<lparr> lane = laneIdx, isDeadly = False, isBlockedSide = False,
     action = ActNone, laneScore = 5000, distanceToThreat = 9999, threatType = None,
     firstSolidDist = 9999 \<rparr>"

text \<open>The lane's obstacles in scan order: filtered, then sorted by descending z (stable).\<close>

definition laneObs :: "GameEngine \<Rightarrow> int \<Rightarrow> real \<Rightarrow> obstacle list" where
  "laneObs g laneIdx rng =
     sort_key (\<lambda>ob. - pos_z ob)
       (filter (\<lambda>ob. ud_active ob \<and> ud_lane ob = laneIdx \<and> pos_z ob > - rng \<and> pos_z ob < 10)
          (obstacles g))"

definition analyzeLane :: "GameEngine \<Rightarrow> int \<Rightarrow> real \<Rightarrow> LaneAnalysis" where
  "analyzeLane g laneIdx rng =
     (let a = fold (analyzeStep g) (laneObs g laneIdx rng) (initialAnalysis laneIdx)
      in if laneIdx = 0 then a\<lparr>laneScore := laneScore a + 10\<rparr> else a)"

section \<open>Navigator\<close>

text \<open>
  \<open>updateAI\<close> looks analyses up with \<open>analysis.find(...)!\<close>; a lookup that finds nothing
  makes the next field access throw. The model returns \<open>None\<close> there. The in-place
  sort by descending score gives \<open>analysis\<close>; its first element is the best lane.
  The emergency branch yields the target lane and the action label.
\<close>

definition emergencyBranch ::
  "LaneAnalysis list \<Rightarrow> LaneAnalysis \<Rightarrow> LaneAnalysis \<Rightarrow> int \<Rightarrow> (int \<times> AIAction) option" where
  "emergencyBranch analysis currentLaneStats bestLaneAnalysis cur =
     (if lane bestLaneAnalysis \<noteq> cur then
        (let diff = lane bestLaneAnalysis - cur;
             direction = (if diff > 0 then 1 else -1);
             nextStepLane = cur + direction
         in case find (\<lambda>a. lane a = nextStepLane) analysis of
              None \<Rightarrow> None
            | Some nextStepAnalysis \<Rightarrow>
                Some (if \<not> isBlockedSide nextStepAnalysis then
                        (let isSafer = (firstSolidDist nextStepAnalysis > 20 \<and>
                               firstSolidDist nextStepAnalysis > firstSolidDist currentLaneStats);
                             isSafe = (firstSolidDist nextStepAnalysis > 30)
                         in if isSafe \<or> isSafer then (nextStepLane, DODGE) else (cur, SCANNING))
                      else (cur, SCANNING)))
      else Some (cur, SCANNING))"

text \<open>The optimization branch yields the target lane, the action label and the cooldown.\<close>

definition optimizationBranch ::
  "LaneAnalysis list \<Rightarrow> LaneAnalysis \<Rightarrow> LaneAnalysis \<Rightarrow> int \<Rightarrow> int \<Rightarrow> (int \<times> AIAction \<times> int) option" where
  "optimizationBranch analysis currentLaneStats bestLaneAnalysis cur cooldown =
     (if cooldown \<le> 0 then
        (if laneScore bestLaneAnalysis > laneScore currentLaneStats + 50 \<and>
            firstSolidDist bestLaneAnalysis > 300 then
           (case find (\<lambda>a. lane a = lane bestLaneAnalysis) analysis of
              None \<Rightarrow> None
            | Some targetStats \<Rightarrow>
                Some (if \<not> isBlockedSide targetStats
                      then (lane bestLaneAnalysis, RUN, 20)
                      else (cur, SCANNING, cooldown)))
         else Some (cur, SCANNING, cooldown))
      else Some (cur, SCANNING, cooldown))"

text \<open>
  Reflex execution. \<open>dist / gameSpeed\<close> at speed 0 is an infinity or NaN in JavaScript
  and 0 in HOL; both fail the window test \<open>5 < t < 25\<close>, so the branches agree.
\<close>

definition reflexExecution :: "LaneAnalysis \<Rightarrow> AIAction \<Rightarrow> GameEngine \<Rightarrow> GameEngine \<times> AIAction" where
  "reflexExecution effectiveLaneStats aiAction g =
     (if action effectiveLaneStats \<noteq> ActNone then
        (let dist = distanceToThreat effectiveLaneStats;
             timeToImpactFrames = dist / gameSpeed g
         in if action effectiveLaneStats = ActJump then
              (if timeToImpactFrames < 25 \<and> timeToImpactFrames > 5
               then (jump g, AI_JUMP) else (g, aiAction))
            else if action effectiveLaneStats = ActDuck then
              (if timeToImpactFrames < 25 \<and> timeToImpactFrames > 5
               then (roll g, AI_DUCK) else (g, aiAction))
            else (g, aiAction))
      else (g, aiAction))"

text \<open>
  \<open>navigate\<close> is the body of \<open>updateAI\<close> from the lookup of the current lane's analysis
  on; it receives the three lane analyses in lane order and the engine after the cooldown
  decrement.
\<close>

definition navigate :: "LaneAnalysis list \<Rightarrow> GameEngine \<Rightarrow> GameEngine option" where
  "navigate analysis0 g1 = do {
     let currentSpeed = gameSpeed g1;
     currentLaneStats \<leftarrow> find (\<lambda>a. lane a = currentLane g1) analysis0;
     let analysis = sort_key (\<lambda>a. - laneScore a) analysis0;
     bestLaneAnalysis \<leftarrow> (case analysis of [] \<Rightarrow> None | b # _ \<Rightarrow> Some b);
     let isEmergency = (firstSolidDist currentLaneStats < 100 + currentSpeed * 20);
     let g2 = (if isEmergency then g1\<lparr>aiLaneChangeCooldown := 0\<rparr> else g1);
     (targetLane, aiAction, cooldown) \<leftarrow>
       (if isEmergency
        then map_option (\<lambda>(t, a). (t, a, aiLaneChangeCooldown g2))
               (emergencyBranch analysis currentLaneStats bestLaneAnalysis (currentLane g2))
        else optimizationBranch analysis currentLaneStats bestLaneAnalysis
               (currentLane g2) (aiLaneChangeCooldown g2));
     let g3 = g2\<lparr>aiLaneChangeCooldown := cooldown\<rparr>;
     let g4 = (if targetLane \<noteq> currentLane g3 then setLane targetLane g3 else g3);
     effectiveLaneStats \<leftarrow> find (\<lambda>a. lane a = currentLane g4) analysis;
     let (g5, aiAction') = reflexExecution effectiveLaneStats aiAction g4;
     Some (g5\<lparr>aiLog := aiLog g5 @
       [\<lparr> ai_enabled = autoPilotEnabled g5,
          ai_currentLane = currentLane g5,
          ai_targetLane = targetLane,
          ai_action = aiAction',
          ai_confidence = (if isEmergency then 20 else 100),
          ai_nearestThreatDist = \<lfloor>distanceToThreat currentLaneStats\<rfloor>,
          ai_laneScores = map laneScore (sort_key lane analysis) \<rparr>]\<rparr>)
   }"

definition updateAI :: "GameEngine \<Rightarrow> GameEngine option" where
  "updateAI g0 =
     (let g1 = (if aiLaneChangeCooldown g0 > 0
                then g0\<lparr>aiLaneChangeCooldown := aiLaneChangeCooldown g0 - 1\<rparr> else g0);
          currentSpeed = gameSpeed g1;
          visionRange = 800 + currentSpeed * 400;
          analysis0 = map (\<lambda>l. analyzeLane g1 l visionRange) [-1, 0, 1]
      in navigate analysis0 g1)"

section \<open>The frame update\<close>

definition clockTick :: "GameEngine \<Rightarrow> GameEngine" where
  "clockTick g =
     (let speed = min (maxSpeed config) (gameSpeed g + speedIncrement config);
          dist = distanceTraveled g + speed;
          sc = \<lfloor>dist * 10\<rfloor>
      in g\<lparr>gameSpeed := speed, distanceTraveled := dist, score := sc, scoreLog := scoreLog g @ [sc]\<rparr>)"

definition physics :: "GameEngine \<Rightarrow> GameEngine" where
  "physics g =
     (let targetX = of_int (currentLane g) * laneWidth config;
          lerpFactor = (if autoPilotEnabled g then 0.8 else 0.3);
          x1 = player_x g + (targetX - player_x g) * lerpFactor;
          x2 = (if autoPilotEnabled g \<and> \<bar>x1 - targetX\<bar> < 0.2 then targetX
                else if \<not> autoPilotEnabled g \<and> \<bar>x1 - targetX\<bar> < 0.05 then targetX
                else x1);
          g1 = g\<lparr>player_x := x2\<rparr>
      in if isJumping g1 then
           (let y1 = player_y g1 + playerVelocityY g1;
                v1 = playerVelocityY g1 - gravity config
            in if y1 \<le> playerBaseY
               then g1\<lparr>player_y := playerBaseY, isJumping := False, playerVelocityY := 0\<rparr>
               else g1\<lparr>player_y := y1, playerVelocityY := v1\<rparr>)
         else if isRolling g1 then
           (let t = rollTimer g1 - 1
            in if t \<le> 0 then g1\<lparr>rollTimer := t, isRolling := False\<rparr> else g1\<lparr>rollTimer := t\<rparr>)
         else g1)"

text \<open>The collision test of one obstacle whose z has already been advanced.\<close>

definition collide :: "obstacle \<Rightarrow> GameEngine \<Rightarrow> obstacle \<times> GameEngine" where
  "collide obs g =
     (if ud_active obs then
        (let dx = \<bar>pos_x obs - player_x g\<bar>;
             dz = pos_z obs
         in if dz > -1.0 \<and> dz < 1.0 \<and> dx < 1.2 then
              (if collisionType obs = COIN
               then (obs\<lparr>ud_active := False\<rparr>, g\<lparr>score := score g + 500\<rparr>)
               else (let safe = (if collisionType obs = JUMP \<and> player_y g > 1.2 then True
                                 else if collisionType obs = DUCK \<and> isRolling g then True
                                 else False)
                     in if \<not> safe then (obs, gameOver g) else (obs, g)))
            else (obs, g))
      else (obs, g))"

text \<open>
  The obstacle loop runs from the last index down to 0: \<open>foldr\<close> visits the last
  element first. The accumulator holds the obstacles kept so far and the engine.
\<close>

definition obstacleStep :: "obstacle \<Rightarrow> obstacle list \<times> GameEngine \<Rightarrow> obstacle list \<times> GameEngine" where
  "obstacleStep obs acc =
     (let (kept, g) = acc;
          obs1 = obs\<lparr>pos_z := pos_z obs + gameSpeed g\<rparr>;
          (obs2, g') = collide obs1 g
      in (if pos_z obs2 > 15 then kept else obs2 # kept, g'))"

definition scanObstacles :: "GameEngine \<Rightarrow> GameEngine" where
  "scanObstacles g =
     (let (kept, g') = foldr obstacleStep (obstacles g) ([], g)
      in g'\<lparr>obstacles := kept\<rparr>)"

section \<open>Spawner\<close>

text \<open>
  The values \<open>Math.random()\<close> returns while one row is spawned: one for the safe lane,
  and per lane one for the placement test and one for the obstacle type. Each lies in
  the half-open unit interval.
\<close>

record spawn_rand =
  rLane :: real
  rPlace :: "int \<Rightarrow> real"
  rType :: "int \<Rightarrow> real"

definition validRand :: "spawn_rand \<Rightarrow> bool" where
  "validRand r \<longleftrightarrow> 0 \<le> rLane r \<and> rLane r < 1 \<and>
     (\<forall>l \<in> set [-1, 0, 1]. 0 \<le> rPlace r l \<and> rPlace r l < 1 \<and> 0 \<le> rType r l \<and> rType r l < 1)"

definition createObstacleAt :: "real \<Rightarrow> real \<Rightarrow> real \<Rightarrow> int \<Rightarrow> GameEngine \<Rightarrow> GameEngine" where
  "createObstacleAt typeRand x z laneIdx g =
     g\<lparr>obstacles := obstacles g @
        [\<lparr> pos_x = x, pos_z = z, ud_active = True, ud_lane = laneIdx,
           collisionType = (if typeRand < 0.25 then JUMP else if typeRand < 0.5 then DUCK else SOLID) \<rparr>]\<rparr>"

definition spawnCoin :: "real \<Rightarrow> real \<Rightarrow> int \<Rightarrow> GameEngine \<Rightarrow> GameEngine" where
  "spawnCoin x z laneIdx g =
     g\<lparr>obstacles := obstacles g @
        [\<lparr> pos_x = x, pos_z = z, ud_active = True, ud_lane = laneIdx, collisionType = COIN \<rparr>]\<rparr>"

definition possibleLanes :: "int \<Rightarrow> int list" where
  "possibleLanes lastSafe =
     [lastSafe] @ (if lastSafe > -1 then [lastSafe - 1] else [])
                @ (if lastSafe < 1 then [lastSafe + 1] else [])"

text \<open>
  \<open>possibleLanes[Math.floor(Math.random() * possibleLanes.length)]\<close>. A draw in the
  half-open unit interval keeps the index inside the list (lemma \<open>floor_index_less\<close>);
  draws outside it do not occur and are excluded by \<open>validRand\<close>.
\<close>

definition chooseSafeLane :: "real \<Rightarrow> int \<Rightarrow> int" where
  "chooseSafeLane r lastSafe =
     possibleLanes lastSafe ! nat \<lfloor>r * of_nat (length (possibleLanes lastSafe))\<rfloor>"

definition spawnLane :: "spawn_rand \<Rightarrow> int \<Rightarrow> real \<Rightarrow> int \<Rightarrow> GameEngine \<Rightarrow> GameEngine" where
  "spawnLane r safeLaneIdx z laneIdx g =
     (let x = of_int laneIdx * laneWidth config
      in if laneIdx = safeLaneIdx
         then (if rPlace r laneIdx < 0.3 then spawnCoin x z laneIdx g else g)
         else (if rPlace r laneIdx < 0.8 then createObstacleAt (rType r laneIdx) x z laneIdx g else g))"

definition spawnObstacleRow :: "spawn_rand \<Rightarrow> real \<Rightarrow> GameEngine \<Rightarrow> GameEngine" where
  "spawnObstacleRow r z g =
     (let safeLaneIdx = chooseSafeLane (rLane r) (lastSafeLane g);
          g1 = g\<lparr>lastSafeLane := safeLaneIdx\<rparr>
      in fold (spawnLane r safeLaneIdx z) [-1, 0, 1] g1)"

definition spawnZ :: real where
  "spawnZ = -180"

definition minGap :: "GameEngine \<Rightarrow> real" where
  "minGap g = 50 + gameSpeed g * 30"

definition shouldSpawn :: "GameEngine \<Rightarrow> bool" where
  "shouldSpawn g =
     (case rev (obstacles g) of
        [] \<Rightarrow> True
      | lastObs # _ \<Rightarrow> pos_z lastObs > spawnZ + minGap g)"

text \<open>
  \<open>update\<close> in two parts: everything up to and including the obstacle loop, then the
  spawn check with its constants \<open>spawnZ\<close> and \<open>minGap\<close>.
\<close>

definition updateBeforeSpawn :: "GameEngine \<Rightarrow> GameEngine option" where
  "updateBeforeSpawn g =
     (let g1 = clockTick g
      in case (if autoPilotEnabled g1 then updateAI g1 else Some g1) of
           None \<Rightarrow> None
         | Some g2 \<Rightarrow> Some (scanObstacles (physics g2)))"

definition update :: "spawn_rand \<Rightarrow> GameEngine \<Rightarrow> GameEngine option" where
  "update r g =
     (case updateBeforeSpawn g of
        None \<Rightarrow> None
      | Some g3 \<Rightarrow> Some (if shouldSpawn g3 then spawnObstacleRow r spawnZ g3 else g3))"

section \<open>Game loop and commands\<close>

definition animate :: "spawn_rand \<Rightarrow> GameEngine \<Rightarrow> GameEngine option" where
  "animate r g = (if state g \<noteq> PLAYING then Some g else update r g)"

text \<open>\<open>start\<close> resets the run and calls \<open>animate\<close>, which performs the first update at once.\<close>

definition start :: "spawn_rand \<Rightarrow> GameEngine \<Rightarrow> GameEngine option" where
  "start r g =
     (if state g = PLAYING then Some g
      else animate r
             (g\<lparr>score := 0, distanceTraveled := 0, gameSpeed := startSpeed config,
                currentLane := 0, lastSafeLane := 0, playerVelocityY := 0,
                isJumping := False, isRolling := False, aiLaneChangeCooldown := 0,
                obstacles := [], player_x := 0, player_y := 1, state := PLAYING\<rparr>))"

text \<open>
  What can happen to the engine from outside: the public methods the application calls
  and the animation frame callback. A frame that arrives when the state is not
  \<open>PLAYING\<close> does nothing. \<open>setLane\<close> is public too, but only \<open>updateAI\<close> calls it, so it
  is not a command of its own.
\<close>

datatype command =
    Start spawn_rand
  | Frame spawn_rand
  | MoveLeft
  | MoveRight
  | Jump
  | Roll
  | ToggleAutoPilot bool

fun perform :: "command \<Rightarrow> GameEngine \<Rightarrow> GameEngine option" where
  "perform (Start r) g = start r g"
| "perform (Frame r) g = animate r g"
| "perform MoveLeft g = Some (moveLeft g)"
| "perform MoveRight g = Some (moveRight g)"
| "perform Jump g = Some (jump g)"
| "perform Roll g = Some (roll g)"
| "perform (ToggleAutoPilot v) g = Some (toggleAutoPilot v g)"

fun validCommand :: "command \<Rightarrow> bool" where
  "validCommand (Start r) = validRand r"
| "validCommand (Frame r) = validRand r"
| "validCommand _ = True"

inductive reachable :: "GameEngine \<Rightarrow> bool" where
  reachable_init: "reachable initialEngine"
| reachable_step: "reachable g \<Longrightarrow> validCommand c \<Longrightarrow> perform c g = Some g' \<Longrightarrow> reachable g'"

section \<open>Sample inputs\<close>

text \<open>
  Random draws under which a row places nothing, and the engine after \<open>start\<close> with them.
\<close>

definition quietRand :: spawn_rand where
  "quietRand = \<lparr> rLane = 0.5, rPlace = (\<lambda>_. 0.9), rType = (\<lambda>_. 0.9) \<rparr>"

definition startedEngine :: GameEngine where
  "startedEngine = initialEngine\<lparr>state := PLAYING, score := 6,
     distanceTraveled := 0.6002, gameSpeed := 0.6002, lastSafeLane := -1, scoreLog := [6]\<rparr>"

text \<open>A wall in the centre lane, half a unit ahead of the player, and an engine facing it.\<close>

definition wallAhead :: obstacle where
  "wallAhead = \<lparr> pos_x = 0, pos_z = -0.5, ud_active = True, ud_lane = 0, collisionType = SOLID \<rparr>"

definition wallEngine :: GameEngine where
  "wallEngine = startedEngine\<lparr>obstacles := [wallAhead]\<rparr>"

text \<open>
  A wall of the right lane that has just passed the player (z = 2) and a coin of the
  same lane 100 units ahead.
\<close>

definition sideBlockedEngine :: GameEngine where
  "sideBlockedEngine = startedEngine\<lparr>obstacles :=
     [\<lparr> pos_x = 4, pos_z = 2, ud_active = True, ud_lane = 1, collisionType = SOLID \<rparr>,
      \<lparr> pos_x = 4, pos_z = -100, ud_active = True, ud_lane = 1, collisionType = COIN \<rparr>]\<rparr>"

text \<open>
  An autopilot run with the player in the left lane and one row 100 units ahead: a jump
  barrier in the left lane, a wall in the centre lane, the right lane free.
\<close>

definition detourEngine :: GameEngine where
  "detourEngine = startedEngine\<lparr>currentLane := -1, player_x := -4, autoPilotEnabled := True,
     lastSafeLane := 1, obstacles :=
     [\<lparr> pos_x = -4, pos_z = -100, ud_active = True, ud_lane = -1, collisionType = JUMP \<rparr>,
      \<lparr> pos_x = 0, pos_z = -100, ud_active = True, ud_lane = 0, collisionType = SOLID \<rparr>]\<rparr>"

text \<open>A manual run with a coin in the player's lane that the next frame brings into contact.\<close>

definition coinEngine :: GameEngine where
  "coinEngine = startedEngine\<lparr>obstacles :=
     [\<lparr> pos_x = 0, pos_z = -1.5, ud_active = True, ud_lane = 0, collisionType = COIN \<rparr>]\<rparr>"



section \<open>Spacing of the obstacle list\<close>



section \<open>The spawn gate in the words of the specification\<close>


section \<open>Jump and roll commands\<close>

text \<open>
  C4, as stated: the jump command changes nothing while the player is rolling. The code
  refutes it: a rolling, grounded player who jumps becomes airborne, gets the jump
  impulse and stops rolling.
\<close>

theorem jump_while_rolling_counterexample:
  "isRolling (roll initialEngine) \<and>
   isJumping (jump (roll initialEngine)) \<noteq> isJumping (roll initialEngine) \<and>
   isRolling (jump (roll initialEngine)) \<noteq> isRolling (roll initialEngine) \<and>
   playerVelocityY (jump (roll initialEngine)) \<noteq> playerVelocityY (roll initialEngine)"
  by (simp add: jump_def roll_def initialEngine_def config_def)

text \<open>
  C4, amended: the jump command is a no-op while the player is jumping; issued while the
  player is not jumping (rolling or not) it starts a jump and clears the roll flag,
  leaving the roll timer as it is. The roll command is a no-op while the player is
  jumping or rolling.
\<close>

theorem jump_roll_guards:
  "(isJumping g \<longrightarrow> jump g = g) \<and>
   (\<not> isJumping g \<longrightarrow>
      jump g = g\<lparr>isJumping := True, playerVelocityY := jumpForce config, isRolling := False\<rparr>) \<and>
   (isJumping g \<or> isRolling g \<longrightarrow> roll g = g)"
  by (simp add: jump_def roll_def)

theorem jump_roll_guards_witness:
  "isJumping (jump initialEngine) \<and> jump (jump initialEngine) = jump initialEngine \<and>
   roll (jump initialEngine) = jump initialEngine \<and>
   \<not> isJumping (roll initialEngine) \<and> isRolling (roll initialEngine) \<and>
   jump (roll initialEngine) =
     (roll initialEngine)\<lparr>isJumping := True, playerVelocityY := jumpForce config, isRolling := False\<rparr> \<and>
   roll (roll initialEngine) = roll initialEngine"
proof -
  have j: "isJumping (jump initialEngine)"
    by (simp add: jump_def initialEngine_def)
  have r: "\<not> isJumping (roll initialEngine) \<and> isRolling (roll initialEngine)"
    by (simp add: roll_def initialEngine_def)
  show ?thesis
    using j r jump_roll_guards [of "jump initialEngine"] jump_roll_guards [of "roll initialEngine"]
    by simp
qed

subsection \<open>What the phases of an update leave alone\<close>

lemma collide_cases:
  "snd (collide ob g) = g \<or> snd (collide ob g) = g\<lparr>score := score g + 500\<rparr> \<or>
   snd (collide ob g) = gameOver g"
  by (simp add: collide_def Let_def)

lemma obstacleStep_frame:
  assumes "\<And>g s. f (g\<lparr>score := s\<rparr>) = f g" and "\<And>g. f (gameOver g) = f g"
  shows "f (snd (obstacleStep ob (k, g))) = f g"
proof -
  have "snd (obstacleStep ob (k, g)) = snd (collide (ob\<lparr>pos_z := pos_z ob + gameSpeed g\<rparr>) g)"
    by (simp add: obstacleStep_def Let_def split: prod.splits)
  then show ?thesis
    using collide_cases [of "ob\<lparr>pos_z := pos_z ob + gameSpeed g\<rparr>" g] assms by auto
qed

lemma foldr_obstacleStep_frame:
  assumes "\<And>g s. f (g\<lparr>score := s\<rparr>) = f g" and "\<And>g. f (gameOver g) = f g"
  shows "f (snd (foldr obstacleStep xs (k, g))) = f g"
proof (induction xs)
  case Nil
  then show ?case by simp
next
  case (Cons ob xs)
  obtain k' g' where acc: "foldr obstacleStep xs (k, g) = (k', g')"
    by (cases "foldr obstacleStep xs (k, g)")
  have "f (snd (obstacleStep ob (k', g'))) = f g'"
    by (rule obstacleStep_frame) (rule assms)+
  with Cons acc show ?case by simp
qed

lemma scanObstacles_frame:
  assumes "\<And>g s. f (g\<lparr>score := s\<rparr>) = f g" and "\<And>g. f (gameOver g) = f g"
    and "\<And>g k. f (g\<lparr>obstacles := k\<rparr>) = f g"
  shows "f (scanObstacles g) = f g"
proof -
  obtain k' g' where acc: "foldr obstacleStep (obstacles g) ([], g) = (k', g')"
    by (cases "foldr obstacleStep (obstacles g) ([], g)")
  have "f g' = f g"
    using foldr_obstacleStep_frame [of f "obstacles g" "[]" g, OF assms(1,2)] acc by simp
  then show ?thesis
    by (simp add: scanObstacles_def acc assms(3))
qed

lemma scanObstacles_fields:
  "isJumping (scanObstacles g) = isJumping g"
  "isRolling (scanObstacles g) = isRolling g"
  "gameSpeed (scanObstacles g) = gameSpeed g"
  "currentLane (scanObstacles g) = currentLane g"
  "lastSafeLane (scanObstacles g) = lastSafeLane g"
  "player_x (scanObstacles g) = player_x g"
  "player_y (scanObstacles g) = player_y g"
  "autoPilotEnabled (scanObstacles g) = autoPilotEnabled g"
  "distanceTraveled (scanObstacles g) = distanceTraveled g"
  by (rule scanObstacles_frame; simp add: gameOver_def)+

lemma spawnLane_fields:
  "isJumping (spawnLane r s z l g) = isJumping g"
  "isRolling (spawnLane r s z l g) = isRolling g"
  "gameSpeed (spawnLane r s z l g) = gameSpeed g"
  "currentLane (spawnLane r s z l g) = currentLane g"
  "lastSafeLane (spawnLane r s z l g) = lastSafeLane g"
  "state (spawnLane r s z l g) = state g"
  "score (spawnLane r s z l g) = score g"
  "gameOverLog (spawnLane r s z l g) = gameOverLog g"
  by (simp_all add: spawnLane_def spawnCoin_def createObstacleAt_def Let_def)

lemma spawnObstacleRow_fields:
  "isJumping (spawnObstacleRow r z g) = isJumping g"
  "isRolling (spawnObstacleRow r z g) = isRolling g"
  "gameSpeed (spawnObstacleRow r z g) = gameSpeed g"
  "currentLane (spawnObstacleRow r z g) = currentLane g"
  "state (spawnObstacleRow r z g) = state g"
  "score (spawnObstacleRow r z g) = score g"
  "gameOverLog (spawnObstacleRow r z g) = gameOverLog g"
  "lastSafeLane (spawnObstacleRow r z g) = chooseSafeLane (rLane r) (lastSafeLane g)"
  by (simp_all add: spawnObstacleRow_def spawnLane_fields Let_def)

lemma physics_fields:
  "gameSpeed (physics g) = gameSpeed g"
  "currentLane (physics g) = currentLane g"
  "lastSafeLane (physics g) = lastSafeLane g"
  "state (physics g) = state g"
  "score (physics g) = score g"
  "obstacles (physics g) = obstacles g"
  "gameOverLog (physics g) = gameOverLog g"
  "autoPilotEnabled (physics g) = autoPilotEnabled g"
  by (simp_all add: physics_def Let_def)

lemma physics_modes:
  "\<not> (isJumping g \<and> isRolling g) \<Longrightarrow> \<not> (isJumping (physics g) \<and> isRolling (physics g))"
  by (auto simp add: physics_def Let_def)

lemma clockTick_fields:
  "isJumping (clockTick g) = isJumping g"
  "isRolling (clockTick g) = isRolling g"
  "currentLane (clockTick g) = currentLane g"
  "lastSafeLane (clockTick g) = lastSafeLane g"
  "state (clockTick g) = state g"
  "obstacles (clockTick g) = obstacles g"
  "gameOverLog (clockTick g) = gameOverLog g"
  "autoPilotEnabled (clockTick g) = autoPilotEnabled g"
  "gameSpeed (clockTick g) = min (maxSpeed config) (gameSpeed g + speedIncrement config)"
  by (simp_all add: clockTick_def Let_def)

subsection \<open>The navigator: shape of its result, and when it returns\<close>

lemma analyzeStep_lane: "lane (analyzeStep g ob a) = lane a"
  by (simp add: analyzeStep_def Let_def)

lemma fold_analyzeStep_lane: "lane (fold (analyzeStep g) xs a) = lane a"
  by (induction xs arbitrary: a) (simp_all add: analyzeStep_lane)

lemma analyzeLane_lane: "lane (analyzeLane g l rng) = l"
  by (simp add: analyzeLane_def Let_def fold_analyzeStep_lane initialAnalysis_def)

lemma analysis_lanes:
  "lane ` set (sort_key k (map (\<lambda>l. analyzeLane g l rng) [-1, 0, 1])) = {-1, 0, 1}"
  "lane ` set (map (\<lambda>l. analyzeLane g l rng) [-1, 0, 1]) = {-1, 0, 1}"
  by (auto simp only: set_sort set_map list.set image_insert image_empty analyzeLane_lane)

lemma find_lane_None: "find (\<lambda>a. lane a = l) xs = None \<longleftrightarrow> l \<notin> lane ` set xs"
  by (auto simp add: find_None_iff)

lemma find_lane_Some: "find (\<lambda>a. lane a = l) xs = Some a \<Longrightarrow> l \<in> lane ` set xs"
  by (induction xs) (auto split: if_splits)

lemma reflexExecution_cases:
  "fst (reflexExecution e a g) = g \<or> fst (reflexExecution e a g) = jump g \<or>
   fst (reflexExecution e a g) = roll g"
  by (simp add: reflexExecution_def Let_def)

lemma reflexExecution_frame:
  assumes "\<And>g. f (jump g) = f g" and "\<And>g. f (roll g) = f g"
  shows "f (fst (reflexExecution e a g)) = f g"
  using reflexExecution_cases [of e a g] assms by auto

lemma navigate_Some:
  assumes "navigate an g = Some g'"
  obtains c t e a l where
    "find (\<lambda>x. lane x = t) (sort_key (\<lambda>a. - laneScore a) an) = Some e"
    "g' = (fst (reflexExecution e a (g\<lparr>aiLaneChangeCooldown := c, currentLane := t\<rparr>)))\<lparr>aiLog := l\<rparr>"
proof -
  define G2 where "G2 cls = (if firstSolidDist cls < 100 + gameSpeed g * 20
      then g\<lparr>aiLaneChangeCooldown := 0\<rparr> else g)" for cls :: LaneAnalysis
  define G4 where "G4 cls p = (if fst p \<noteq> currentLane ((G2 cls)\<lparr>aiLaneChangeCooldown := snd (snd p)\<rparr>)
      then setLane (fst p) ((G2 cls)\<lparr>aiLaneChangeCooldown := snd (snd p)\<rparr>)
      else (G2 cls)\<lparr>aiLaneChangeCooldown := snd (snd p)\<rparr>)" for cls :: LaneAnalysis and p :: "int \<times> AIAction \<times> int"
  have G4_eq: "G4 cls p = g\<lparr>aiLaneChangeCooldown := snd (snd p), currentLane := fst p\<rparr>" for cls p
    by (simp add: G4_def G2_def setLane_def)
  from assms obtain cls p e l where
    e: "find (\<lambda>a. lane a = currentLane (G4 cls p)) (sort_key (\<lambda>a. - laneScore a) an) = Some e"
    and g': "g' = (fst (reflexExecution e (fst (snd p)) (G4 cls p)))\<lparr>aiLog := l\<rparr>"
    unfolding navigate_def Let_def G4_def G2_def
    by (auto simp add: bind_eq_Some_conv case_prod_beta)
  show thesis
  proof (rule that)
    show "find (\<lambda>x. lane x = fst p) (sort_key (\<lambda>a. - laneScore a) an) = Some e"
      using e by (simp add: G4_eq)
    show "g' = (fst (reflexExecution e (fst (snd p))
        (g\<lparr>aiLaneChangeCooldown := snd (snd p), currentLane := fst p\<rparr>)))\<lparr>aiLog := l\<rparr>"
      using g' by (simp add: G4_eq)
  qed
qed

lemma navigate_frame:
  assumes nav: "navigate an g = Some g'"
    and j: "\<And>g. f (jump g) = f g" and r: "\<And>g. f (roll g) = f g"
    and u: "\<And>g c t. f (g\<lparr>aiLaneChangeCooldown := c, currentLane := t\<rparr>) = f g"
    and l: "\<And>g l. f (g\<lparr>aiLog := l\<rparr>) = f g"
  shows "f g' = f g"
proof -
  from nav obtain c t e a lg where
    g': "g' = (fst (reflexExecution e a (g\<lparr>aiLaneChangeCooldown := c, currentLane := t\<rparr>)))\<lparr>aiLog := lg\<rparr>"
    by (rule navigate_Some)
  have "f g' = f (fst (reflexExecution e a (g\<lparr>aiLaneChangeCooldown := c, currentLane := t\<rparr>)))"
    unfolding g' by (rule l)
  also have "\<dots> = f (g\<lparr>aiLaneChangeCooldown := c, currentLane := t\<rparr>)"
    by (rule reflexExecution_frame) (rule j r)+
  also have "\<dots> = f g" by (rule u)
  finally show ?thesis .
qed

lemma navigate_lane:
  assumes nav: "navigate an g = Some g'"
  shows "currentLane g' \<in> lane ` set an"
proof -
  from nav obtain c t e a lg where
    e: "find (\<lambda>x. lane x = t) (sort_key (\<lambda>a. - laneScore a) an) = Some e"
    and g': "g' = (fst (reflexExecution e a (g\<lparr>aiLaneChangeCooldown := c, currentLane := t\<rparr>)))\<lparr>aiLog := lg\<rparr>"
    by (rule navigate_Some)
  have "currentLane (fst (reflexExecution e a (g\<lparr>aiLaneChangeCooldown := c, currentLane := t\<rparr>)))
      = currentLane (g\<lparr>aiLaneChangeCooldown := c, currentLane := t\<rparr>)"
    by (rule reflexExecution_frame) (simp_all add: jump_def roll_def)
  then have "currentLane g' = t" by (simp add: g')
  moreover have "t \<in> lane ` set (sort_key (\<lambda>a. - laneScore a) an)"
    using e by (rule find_lane_Some)
  ultimately show ?thesis by simp
qed

lemma navigate_modes:
  assumes nav: "navigate an g = Some g'" and m: "\<not> (isJumping g \<and> isRolling g)"
  shows "\<not> (isJumping g' \<and> isRolling g')"
proof -
  from nav obtain c t e a lg where
    g': "g' = (fst (reflexExecution e a (g\<lparr>aiLaneChangeCooldown := c, currentLane := t\<rparr>)))\<lparr>aiLog := lg\<rparr>"
    by (rule navigate_Some)
  let ?gm = "g\<lparr>aiLaneChangeCooldown := c, currentLane := t\<rparr>"
  have "\<not> (isJumping (fst (reflexExecution e a ?gm)) \<and> isRolling (fst (reflexExecution e a ?gm)))"
    using reflexExecution_cases [of e a ?gm] m by (auto simp add: jump_def roll_def split: if_splits)
  then show ?thesis by (simp add: g')
qed

lemma updateAI_frame:
  assumes "updateAI g = Some g'"
    and "\<And>g. f (jump g) = f g" and "\<And>g. f (roll g) = f g"
    and "\<And>g c t. f (g\<lparr>aiLaneChangeCooldown := c, currentLane := t\<rparr>) = f g"
    and "\<And>g c. f (g\<lparr>aiLaneChangeCooldown := c\<rparr>) = f g"
    and "\<And>g l. f (g\<lparr>aiLog := l\<rparr>) = f g"
  shows "f g' = f g"
proof -
  let ?g1 = "if aiLaneChangeCooldown g > 0
               then g\<lparr>aiLaneChangeCooldown := aiLaneChangeCooldown g - 1\<rparr> else g"
  from assms(1) obtain an where "navigate an ?g1 = Some g'"
    unfolding updateAI_def Let_def by blast
  then have "f g' = f ?g1"
    by (rule navigate_frame) (rule assms)+
  then show ?thesis by (simp add: assms(5))
qed

lemma updateAI_fields:
  assumes "updateAI g = Some g'"
  shows "gameSpeed g' = gameSpeed g" "state g' = state g" "obstacles g' = obstacles g"
    "lastSafeLane g' = lastSafeLane g" "score g' = score g" "gameOverLog g' = gameOverLog g"
    "autoPilotEnabled g' = autoPilotEnabled g" "player_x g' = player_x g" "player_y g' = player_y g"
    "distanceTraveled g' = distanceTraveled g" "scoreLog g' = scoreLog g"
  by (rule updateAI_frame [OF assms]; simp add: jump_def roll_def)+

lemma updateAI_lane:
  assumes "updateAI g = Some g'"
  shows "currentLane g' \<in> {-1, 0, 1}"
proof -
  let ?g1 = "if aiLaneChangeCooldown g > 0
               then g\<lparr>aiLaneChangeCooldown := aiLaneChangeCooldown g - 1\<rparr> else g"
  let ?an = "map (\<lambda>l. analyzeLane ?g1 l (800 + gameSpeed ?g1 * 400)) [-1, 0, 1]"
  from assms have "navigate ?an ?g1 = Some g'"
    unfolding updateAI_def Let_def .
  then have "currentLane g' \<in> lane ` set ?an" by (rule navigate_lane)
  then show ?thesis by (simp only: analysis_lanes)
qed

lemma updateAI_modes:
  assumes "updateAI g = Some g'" and "\<not> (isJumping g \<and> isRolling g)"
  shows "\<not> (isJumping g' \<and> isRolling g')"
proof -
  let ?g1 = "if aiLaneChangeCooldown g > 0
               then g\<lparr>aiLaneChangeCooldown := aiLaneChangeCooldown g - 1\<rparr> else g"
  from assms(1) obtain an where "navigate an ?g1 = Some g'"
    unfolding updateAI_def Let_def by blast
  moreover have "\<not> (isJumping ?g1 \<and> isRolling ?g1)" using assms(2) by simp
  ultimately show ?thesis by (rule navigate_modes)
qed

lemma emergencyBranch_total:
  assumes "lane ` set S = {-1, 0, 1}" and "lane best \<in> {-1, 0, 1}" and "cur \<in> {-1, 0, 1}"
  shows "\<exists>t a. emergencyBranch S cls best cur = Some (t, a) \<and> t \<in> {-1, 0, 1} \<and> \<bar>t - cur\<bar> \<le> 1"
proof (cases "lane best = cur")
  case True
  then show ?thesis using assms(3) by (simp add: emergencyBranch_def)
next
  case False
  let ?n = "cur + (if lane best - cur > 0 then 1 else -1)"
  have n: "?n \<in> {-1, 0, 1}" using assms(2,3) False by auto
  then have "find (\<lambda>a. lane a = ?n) S \<noteq> None"
    by (simp only: find_lane_None assms(1)) simp
  then obtain na where na: "find (\<lambda>a. lane a = ?n) S = Some na" by blast
  have d: "\<bar>?n - cur\<bar> \<le> 1" by simp
  show ?thesis
    using False na n d assms(3) by (simp add: emergencyBranch_def Let_def)
qed

lemma optimizationBranch_total:
  assumes "lane ` set S = {-1, 0, 1}" and "lane best \<in> {-1, 0, 1}" and "cur \<in> {-1, 0, 1}"
  shows "\<exists>t a c. optimizationBranch S cls best cur cd = Some (t, a, c) \<and> t \<in> {-1, 0, 1}"
proof -
  have "find (\<lambda>a. lane a = lane best) S \<noteq> None"
    using assms(2) by (simp only: find_lane_None assms(1)) simp
  then obtain ts where ts: "find (\<lambda>a. lane a = lane best) S = Some ts" by blast
  show ?thesis
    using ts assms(2,3) by (simp add: optimizationBranch_def)
qed

lemma navigate_total:
  assumes an: "lane ` set an = {-1, 0, 1}" and cur: "currentLane g \<in> {-1, 0, 1}"
  shows "\<exists>g'. navigate an g = Some g'"
proof -
  let ?S = "sort_key (\<lambda>a. - laneScore a) an"
  have S: "lane ` set ?S = {-1, 0, 1}" using an by simp
  have "find (\<lambda>a. lane a = currentLane g) an \<noteq> None"
    using cur by (simp only: find_lane_None an) simp
  then obtain cls where cls: "find (\<lambda>a. lane a = currentLane g) an = Some cls" by blast
  have "set ?S \<noteq> {}" using S by auto
  then obtain best rest where best: "?S = best # rest" by (cases ?S) auto
  have hdS: "(case ?S of [] \<Rightarrow> None | b # _ \<Rightarrow> Some b) = Some best" by (simp add: best)
  have "best \<in> set ?S" by (simp add: best)
  then have bl: "lane best \<in> {-1, 0, 1}" using S by blast
  let ?em = "firstSolidDist cls < 100 + gameSpeed g * 20"
  let ?g2 = "if ?em then g\<lparr>aiLaneChangeCooldown := 0\<rparr> else g"
  have cur2: "currentLane ?g2 \<in> {-1, 0, 1}" using cur by simp
  let ?dec = "if ?em
        then map_option (\<lambda>(t, a). (t, a, aiLaneChangeCooldown ?g2))
               (emergencyBranch ?S cls best (currentLane ?g2))
        else optimizationBranch ?S cls best (currentLane ?g2) (aiLaneChangeCooldown ?g2)"
  have "\<exists>t a c. ?dec = Some (t, a, c) \<and> t \<in> {-1, 0, 1}"
  proof (cases ?em)
    case True
    from emergencyBranch_total [OF S bl cur2, of cls] obtain t a where
      "emergencyBranch ?S cls best (currentLane ?g2) = Some (t, a)" "t \<in> {-1, 0, 1}" by blast
    with True show ?thesis by simp
  next
    case False
    from optimizationBranch_total [OF S bl cur2, of cls "aiLaneChangeCooldown ?g2"] obtain t a c where
      "optimizationBranch ?S cls best (currentLane ?g2) (aiLaneChangeCooldown ?g2) = Some (t, a, c)"
      "t \<in> {-1, 0, 1}" by blast
    with False show ?thesis by simp
  qed
  then obtain t a c where dec: "?dec = Some (t, a, c)" and t: "t \<in> {-1, 0, 1}" by blast
  let ?g3 = "?g2\<lparr>aiLaneChangeCooldown := c\<rparr>"
  let ?g4 = "if t \<noteq> currentLane ?g3 then setLane t ?g3 else ?g3"
  have "currentLane ?g4 = t" by (simp add: setLane_def)
  then have "find (\<lambda>a. lane a = currentLane ?g4) ?S \<noteq> None"
    using t by (simp only: find_lane_None S) simp
  then obtain e where e: "find (\<lambda>a. lane a = currentLane ?g4) ?S = Some e" by blast
  show ?thesis
    unfolding navigate_def Let_def
    apply (simp only: cls hdS dec bind.bind_lunit case_prod_conv)
    apply (simp only: e bind.bind_lunit)
    apply (simp add: case_prod_beta)
    done
qed

lemma updateAI_total:
  assumes "currentLane g \<in> {-1, 0, 1}"
  shows "\<exists>g'. updateAI g = Some g'"
proof -
  let ?g1 = "if aiLaneChangeCooldown g > 0
               then g\<lparr>aiLaneChangeCooldown := aiLaneChangeCooldown g - 1\<rparr> else g"
  let ?an = "map (\<lambda>l. analyzeLane ?g1 l (800 + gameSpeed ?g1 * 400)) [-1, 0, 1]"
  have "lane ` set ?an = {-1, 0, 1}" by (rule analysis_lanes)
  moreover have "currentLane ?g1 \<in> {-1, 0, 1}" using assms by simp
  ultimately have "\<exists>g'. navigate ?an ?g1 = Some g'" by (rule navigate_total)
  then show ?thesis unfolding updateAI_def Let_def .
qed

subsection \<open>One update\<close>

lemma updateBeforeSpawn_total:
  assumes "currentLane g \<in> {-1, 0, 1}"
  shows "\<exists>g'. updateBeforeSpawn g = Some g'"
proof (cases "autoPilotEnabled g")
  case True
  have "currentLane (clockTick g) \<in> {-1, 0, 1}" using assms by (simp add: clockTick_fields)
  then obtain g2 where "updateAI (clockTick g) = Some g2" using updateAI_total by blast
  with True show ?thesis by (simp add: updateBeforeSpawn_def clockTick_fields)
next
  case False
  then show ?thesis by (simp add: updateBeforeSpawn_def clockTick_fields)
qed

lemma update_total:
  assumes "currentLane g \<in> {-1, 0, 1}"
  shows "\<exists>g'. update r g = Some g'"
  using updateBeforeSpawn_total [OF assms] by (auto simp add: update_def)

lemma updateBeforeSpawn_Some:
  assumes "updateBeforeSpawn g = Some g3"
  obtains g2 where "g3 = scanObstacles (physics g2)"
    and "autoPilotEnabled g \<longrightarrow> updateAI (clockTick g) = Some g2"
    and "\<not> autoPilotEnabled g \<longrightarrow> g2 = clockTick g"
  using assms
  by (auto simp add: updateBeforeSpawn_def Let_def clockTick_fields split: option.splits if_splits)

lemma updateBeforeSpawn_speed:
  assumes "updateBeforeSpawn g = Some g3"
  shows "gameSpeed g3 = min (maxSpeed config) (gameSpeed g + speedIncrement config)"
proof -
  from assms obtain g2 where g3: "g3 = scanObstacles (physics g2)"
    and ai: "autoPilotEnabled g \<longrightarrow> updateAI (clockTick g) = Some g2"
    and man: "\<not> autoPilotEnabled g \<longrightarrow> g2 = clockTick g"
    by (rule updateBeforeSpawn_Some)
  have "gameSpeed g2 = gameSpeed (clockTick g)"
    using ai man updateAI_fields(1) by (cases "autoPilotEnabled g") auto
  then show ?thesis
    by (simp add: g3 scanObstacles_fields physics_fields clockTick_fields)
qed

lemma updateBeforeSpawn_lane:
  assumes "updateBeforeSpawn g = Some g3" and "currentLane g \<in> {-1, 0, 1}"
  shows "currentLane g3 \<in> {-1, 0, 1}"
proof -
  from assms(1) obtain g2 where g3: "g3 = scanObstacles (physics g2)"
    and ai: "autoPilotEnabled g \<longrightarrow> updateAI (clockTick g) = Some g2"
    and man: "\<not> autoPilotEnabled g \<longrightarrow> g2 = clockTick g"
    by (rule updateBeforeSpawn_Some)
  have "currentLane g2 \<in> {-1, 0, 1}"
    using ai man updateAI_lane assms(2) by (cases "autoPilotEnabled g") (auto simp add: clockTick_fields)
  then show ?thesis
    by (simp add: g3 scanObstacles_fields physics_fields)
qed

lemma updateBeforeSpawn_modes:
  assumes "updateBeforeSpawn g = Some g3" and "\<not> (isJumping g \<and> isRolling g)"
  shows "\<not> (isJumping g3 \<and> isRolling g3)"
proof -
  from assms(1) obtain g2 where g3: "g3 = scanObstacles (physics g2)"
    and ai: "autoPilotEnabled g \<longrightarrow> updateAI (clockTick g) = Some g2"
    and man: "\<not> autoPilotEnabled g \<longrightarrow> g2 = clockTick g"
    by (rule updateBeforeSpawn_Some)
  have c: "\<not> (isJumping (clockTick g) \<and> isRolling (clockTick g))"
    using assms(2) by (simp add: clockTick_fields)
  have "\<not> (isJumping g2 \<and> isRolling g2)"
  proof (cases "autoPilotEnabled g")
    case True
    with ai have "updateAI (clockTick g) = Some g2" by simp
    then show ?thesis using c by (rule updateAI_modes)
  next
    case False
    then show ?thesis using man c by simp
  qed
  then have "\<not> (isJumping (physics g2) \<and> isRolling (physics g2))" by (rule physics_modes)
  then show ?thesis by (simp add: g3 scanObstacles_fields)
qed

lemma updateBeforeSpawn_lastSafeLane:
  assumes "updateBeforeSpawn g = Some g3"
  shows "lastSafeLane g3 = lastSafeLane g"
proof -
  from assms(1) obtain g2 where g3: "g3 = scanObstacles (physics g2)"
    and ai: "autoPilotEnabled g \<longrightarrow> updateAI (clockTick g) = Some g2"
    and man: "\<not> autoPilotEnabled g \<longrightarrow> g2 = clockTick g"
    by (rule updateBeforeSpawn_Some)
  have "lastSafeLane g2 = lastSafeLane (clockTick g)"
    using ai man updateAI_fields(4) by (cases "autoPilotEnabled g") auto
  then show ?thesis
    by (simp add: g3 scanObstacles_fields physics_fields clockTick_fields)
qed

lemma update_Some:
  assumes "update r g = Some g'"
  obtains g3 where "updateBeforeSpawn g = Some g3"
    and "g' = (if shouldSpawn g3 then spawnObstacleRow r spawnZ g3 else g3)"
  using assms by (auto simp add: update_def split: option.splits)

lemma update_speed:
  assumes "update r g = Some g'"
  shows "gameSpeed g' = min (maxSpeed config) (gameSpeed g + speedIncrement config)"
proof -
  from assms obtain g3 where "updateBeforeSpawn g = Some g3"
    and "g' = (if shouldSpawn g3 then spawnObstacleRow r spawnZ g3 else g3)"
    by (rule update_Some)
  then show ?thesis
    using updateBeforeSpawn_speed [of g g3] by (simp add: spawnObstacleRow_fields)
qed

lemma update_lane:
  assumes "update r g = Some g'" and "currentLane g \<in> {-1, 0, 1}"
  shows "currentLane g' \<in> {-1, 0, 1}"
proof -
  from assms(1) obtain g3 where "updateBeforeSpawn g = Some g3"
    and "g' = (if shouldSpawn g3 then spawnObstacleRow r spawnZ g3 else g3)"
    by (rule update_Some)
  then show ?thesis
    using updateBeforeSpawn_lane [of g g3] assms(2) by (simp add: spawnObstacleRow_fields)
qed

lemma update_modes:
  assumes "update r g = Some g'" and "\<not> (isJumping g \<and> isRolling g)"
  shows "\<not> (isJumping g' \<and> isRolling g')"
proof -
  from assms(1) obtain g3 where "updateBeforeSpawn g = Some g3"
    and "g' = (if shouldSpawn g3 then spawnObstacleRow r spawnZ g3 else g3)"
    by (rule update_Some)
  then show ?thesis
    using updateBeforeSpawn_modes [of g g3] assms(2) by (simp add: spawnObstacleRow_fields)
qed

subsection \<open>Commands and reachable states\<close>

lemma start_Some:
  assumes "start r g = Some g'"
  shows "(state g = PLAYING \<and> g' = g) \<or>
    (state g \<noteq> PLAYING \<and>
      (\<exists>g0. update r g0 = Some g' \<and> state g0 = PLAYING \<and> currentLane g0 = 0 \<and>
         lastSafeLane g0 = 0 \<and> \<not> isJumping g0 \<and> \<not> isRolling g0 \<and>
         gameSpeed g0 = startSpeed config \<and> obstacles g0 = [] \<and>
         gameOverLog g0 = gameOverLog g))"
proof (cases "state g = PLAYING")
  case True
  with assms show ?thesis by (simp add: start_def)
next
  case False
  let ?g0 = "g\<lparr>score := 0, distanceTraveled := 0, gameSpeed := startSpeed config,
                currentLane := 0, lastSafeLane := 0, playerVelocityY := 0,
                isJumping := False, isRolling := False, aiLaneChangeCooldown := 0,
                obstacles := [], player_x := 0, player_y := 1, state := PLAYING\<rparr>"
  from assms False have "update r ?g0 = Some g'"
    by (simp add: start_def animate_def)
  then have "update r ?g0 = Some g' \<and> state ?g0 = PLAYING \<and> currentLane ?g0 = 0 \<and>
         lastSafeLane ?g0 = 0 \<and> \<not> isJumping ?g0 \<and> \<not> isRolling ?g0 \<and>
         gameSpeed ?g0 = startSpeed config \<and> obstacles ?g0 = [] \<and>
         gameOverLog ?g0 = gameOverLog g"
    by simp
  then show ?thesis using False by blast
qed

lemma animate_Some:
  assumes "animate r g = Some g'"
  shows "(state g \<noteq> PLAYING \<and> g' = g) \<or> (state g = PLAYING \<and> update r g = Some g')"
  using assms by (auto simp add: animate_def split: if_splits)

lemma control_fields:
  assumes "perform c g = Some g'" and "\<And>r. c \<noteq> Start r" and "\<And>r. c \<noteq> Frame r"
  shows "gameSpeed g' = gameSpeed g" "state g' = state g" "lastSafeLane g' = lastSafeLane g"
    "obstacles g' = obstacles g" "gameOverLog g' = gameOverLog g" "score g' = score g"
    "currentLane g \<in> {-1, 0, 1} \<Longrightarrow> currentLane g' \<in> {-1, 0, 1}"
    "\<not> (isJumping g \<and> isRolling g) \<Longrightarrow> \<not> (isJumping g' \<and> isRolling g')"
  using assms
  by (cases c; auto simp add: moveLeft_def moveRight_def jump_def roll_def toggleAutoPilot_def
        split: if_splits)+

lemma reachable_currentLane:
  assumes "reachable g"
  shows "currentLane g \<in> {-1, 0, 1}"
  using assms
proof (induction rule: reachable.induct)
  case reachable_init
  show ?case by (simp add: initialEngine_def)
next
  case (reachable_step g c g')
  show ?case
  proof (cases c)
    case (Start r)
    with reachable_step have "start r g = Some g'" by simp
    from start_Some [OF this] reachable_step.IH show ?thesis
      by (auto dest!: update_lane)
  next
    case (Frame r)
    with reachable_step have "animate r g = Some g'" by simp
    from animate_Some [OF this] reachable_step.IH show ?thesis
      by (auto dest!: update_lane)
  qed (use reachable_step control_fields(7) [of c g g'] in auto)
qed

lemma reachable_speed:
  assumes "reachable g" and "state g \<noteq> MENU"
  shows "startSpeed config \<le> gameSpeed g \<and> gameSpeed g \<le> maxSpeed config"
  using assms
proof (induction rule: reachable.induct)
  case reachable_init
  then show ?case by (simp add: initialEngine_def)
next
  case (reachable_step g c g')
  have upd: "startSpeed config \<le> gameSpeed g1 \<and> gameSpeed g1 \<le> maxSpeed config \<Longrightarrow>
      update r g1 = Some g2 \<Longrightarrow>
      startSpeed config \<le> gameSpeed g2 \<and> gameSpeed g2 \<le> maxSpeed config" for r g1 g2
    by (drule update_speed) (auto simp add: config_def min_def)
  show ?case
  proof (cases c)
    case (Start r)
    with reachable_step have "start r g = Some g'" by simp
    from start_Some [OF this] show ?thesis
    proof
      assume "state g = PLAYING \<and> g' = g"
      with reachable_step show ?thesis by simp
    next
      assume "state g \<noteq> PLAYING \<and>
        (\<exists>g0. update r g0 = Some g' \<and> state g0 = PLAYING \<and> currentLane g0 = 0 \<and>
         lastSafeLane g0 = 0 \<and> \<not> isJumping g0 \<and> \<not> isRolling g0 \<and>
         gameSpeed g0 = startSpeed config \<and> obstacles g0 = [] \<and>
         gameOverLog g0 = gameOverLog g)"
      then obtain g0 where u: "update r g0 = Some g'" and s: "gameSpeed g0 = startSpeed config"
        by blast
      have "startSpeed config \<le> gameSpeed g0 \<and> gameSpeed g0 \<le> maxSpeed config"
        by (simp add: s config_def)
      then show ?thesis using u by (rule upd)
    qed
  next
    case (Frame r)
    with reachable_step have "animate r g = Some g'" by simp
    from animate_Some [OF this] show ?thesis
    proof
      assume "state g \<noteq> PLAYING \<and> g' = g"
      with reachable_step show ?thesis by simp
    next
      assume a: "state g = PLAYING \<and> update r g = Some g'"
      then have "startSpeed config \<le> gameSpeed g \<and> gameSpeed g \<le> maxSpeed config"
        using reachable_step.IH by simp
      then show ?thesis using a upd by blast
    qed
  qed (use reachable_step control_fields(1,2) [of c g g'] in auto)
qed

lemma validRand_quietRand: "validRand quietRand"
  by (simp add: validRand_def quietRand_def)

lemma start_quiet: "start quietRand initialEngine = Some startedEngine"
  by (simp add: startedEngine_def start_def animate_def update_def updateBeforeSpawn_def clockTick_def physics_def
      scanObstacles_def shouldSpawn_def spawnObstacleRow_def spawnLane_def chooseSafeLane_def
      possibleLanes_def initialEngine_def config_def quietRand_def playerBaseY_def Let_def)

section \<open>Motion modes exclude each other\<close>

text \<open>
  C5: in every state the engine reaches from its constructor through any sequence of
  commands and frames, manual or under autopilot, the player is never jumping and
  rolling at once.
\<close>

theorem mode_exclusion:
  assumes "reachable g"
  shows "\<not> (isJumping g \<and> isRolling g)"
  using assms
proof (induction rule: reachable.induct)
  case reachable_init
  show ?case by (simp add: initialEngine_def)
next
  case (reachable_step g c g')
  show ?case
  proof (cases c)
    case (Start r)
    with reachable_step have "start r g = Some g'" by simp
    from start_Some [OF this] reachable_step.IH show ?thesis
      by (auto dest!: update_modes)
  next
    case (Frame r)
    with reachable_step have "animate r g = Some g'" by simp
    from animate_Some [OF this] reachable_step.IH show ?thesis
      by (auto dest!: update_modes)
  qed (use reachable_step control_fields(8) [of c g g'] in auto)
qed

theorem mode_exclusion_witness:
  "reachable (jump (roll initialEngine)) \<and>
   \<not> (isJumping (jump (roll initialEngine)) \<and> isRolling (jump (roll initialEngine)))"
proof -
  have "reachable (roll initialEngine)"
    by (rule reachable_step [of initialEngine Roll]) (simp_all add: reachable_init)
  then have r: "reachable (jump (roll initialEngine))"
    by (rule reachable_step [of _ Jump]) simp_all
  with mode_exclusion [OF r] show ?thesis by simp
qed

section \<open>Game speed\<close>

text \<open>
  C10: from every reachable state in which the game is playing, the frame update returns,
  and the speed after it lies between the start speed and the maximum speed, is not
  below the speed before, and equals the smaller of the maximum speed and the old
  speed plus the increment.
\<close>

theorem speed_bounds:
  assumes "reachable g" and "state g = PLAYING"
  shows "\<exists>g'. update r g = Some g' \<and>
    startSpeed config \<le> gameSpeed g' \<and> gameSpeed g' \<le> maxSpeed config \<and>
    gameSpeed g \<le> gameSpeed g' \<and>
    gameSpeed g' = min (maxSpeed config) (gameSpeed g + speedIncrement config)"
proof -
  from assms(1) have "currentLane g \<in> {-1, 0, 1}" by (rule reachable_currentLane)
  then obtain g' where u: "update r g = Some g'" using update_total by blast
  then have s: "gameSpeed g' = min (maxSpeed config) (gameSpeed g + speedIncrement config)"
    by (rule update_speed)
  have b: "startSpeed config \<le> gameSpeed g \<and> gameSpeed g \<le> maxSpeed config"
    using assms by (intro reachable_speed) simp_all
  have "startSpeed config \<le> gameSpeed g' \<and> gameSpeed g' \<le> maxSpeed config \<and>
    gameSpeed g \<le> gameSpeed g'"
    using b s by (auto simp add: config_def min_def)
  with u s show ?thesis by blast
qed

theorem speed_bounds_witness:
  "reachable startedEngine \<and> state startedEngine = PLAYING \<and>
   (\<exists>g'. update quietRand startedEngine = Some g' \<and>
      startSpeed config \<le> gameSpeed g' \<and> gameSpeed g' \<le> maxSpeed config \<and>
      gameSpeed startedEngine \<le> gameSpeed g' \<and>
      gameSpeed g' = min (maxSpeed config) (gameSpeed startedEngine + speedIncrement config))"
proof -
  have r: "reachable startedEngine"
    by (rule reachable_step [of initialEngine "Start quietRand"])
       (simp_all add: reachable_init validRand_quietRand start_quiet)
  have p: "state startedEngine = PLAYING" by (simp add: startedEngine_def)
  from speed_bounds [OF r p, of quietRand] r p show ?thesis by simp
qed

subsection \<open>The spawned row\<close>

lemma possibleLanes_cases:
  "possibleLanes (-1) = [-1, 0]" "possibleLanes 0 = [0, -1, 1]" "possibleLanes 1 = [1, 0]"
  by (simp_all add: possibleLanes_def)


lemma floor_index_less:
  assumes "0 \<le> r" and "r < 1" and "0 < n"
  shows "nat \<lfloor>r * real n\<rfloor> < n"
proof -
  have "r * real n < real n" using assms by simp
  then have "\<lfloor>r * real n\<rfloor> < int n" by (simp add: floor_less_iff)
  then show ?thesis using assms by linarith
qed

lemma chooseSafeLane_in:
  assumes "0 \<le> r" and "r < 1"
  shows "chooseSafeLane r l \<in> set (possibleLanes l)"
proof -
  have "0 < length (possibleLanes l)" by (simp add: possibleLanes_def)
  then have "nat \<lfloor>r * real (length (possibleLanes l))\<rfloor> < length (possibleLanes l)"
    using assms floor_index_less by blast
  then show ?thesis by (simp add: chooseSafeLane_def)
qed

lemma chooseSafeLane_range:
  assumes "0 \<le> r" and "r < 1" and "l \<in> {-1, 0, 1}"
  shows "chooseSafeLane r l \<in> {-1, 0, 1} \<and> \<bar>chooseSafeLane r l - l\<bar> \<le> 1"
  using chooseSafeLane_in [OF assms(1,2), of l] assms(3)
  by (auto simp add: possibleLanes_cases)










lemma reachable_lastSafeLane:
  assumes "reachable g"
  shows "lastSafeLane g \<in> {-1, 0, 1}"
  using assms
proof (induction rule: reachable.induct)
  case reachable_init
  show ?case by (simp add: initialEngine_def)
next
  case (reachable_step g c g')
  have upd: "lastSafeLane g' \<in> {-1, 0, 1}"
    if u: "update r g0 = Some g'" and l: "lastSafeLane g0 \<in> {-1, 0, 1}" and v: "validRand r" for r g0
  proof -
    from u obtain g3 where b: "updateBeforeSpawn g0 = Some g3"
      and g': "g' = (if shouldSpawn g3 then spawnObstacleRow r spawnZ g3 else g3)"
      by (rule update_Some)
    have l3: "lastSafeLane g3 \<in> {-1, 0, 1}"
      using updateBeforeSpawn_lastSafeLane [OF b] l by simp
    have "0 \<le> rLane r" "rLane r < 1" using v by (simp_all add: validRand_def)
    then have "chooseSafeLane (rLane r) (lastSafeLane g3) \<in> {-1, 0, 1}"
      using chooseSafeLane_range l3 by blast
    then show ?thesis using l3 by (simp add: g' spawnObstacleRow_fields)
  qed
  show ?case
  proof (cases c)
    case (Start r)
    with reachable_step have s: "start r g = Some g'" and v: "validRand r" by simp_all
    from start_Some [OF s] show ?thesis
    proof
      assume "state g = PLAYING \<and> g' = g"
      with reachable_step.IH show ?thesis by simp
    next
      assume "state g \<noteq> PLAYING \<and>
        (\<exists>g0. update r g0 = Some g' \<and> state g0 = PLAYING \<and> currentLane g0 = 0 \<and>
         lastSafeLane g0 = 0 \<and> \<not> isJumping g0 \<and> \<not> isRolling g0 \<and>
         gameSpeed g0 = startSpeed config \<and> obstacles g0 = [] \<and>
         gameOverLog g0 = gameOverLog g)"
      then obtain g0 where "update r g0 = Some g'" "lastSafeLane g0 = 0" by blast
      then show ?thesis using v upd [of r g0] by simp
    qed
  next
    case (Frame r)
    with reachable_step have s: "animate r g = Some g'" and v: "validRand r" by simp_all
    from animate_Some [OF s] show ?thesis
      using reachable_step.IH v upd [of r g] by auto
  qed (use reachable_step control_fields(3) [of c g g'] in auto)
qed

section \<open>Choice of the safe lane\<close>



subsection \<open>The obstacle loop\<close>

lemma collide_autopilot:
  "collide ob (g\<lparr>autoPilotEnabled := b\<rparr>)
     = (fst (collide ob g), (snd (collide ob g))\<lparr>autoPilotEnabled := b\<rparr>)"
  by (simp add: collide_def gameOver_def Let_def)

lemma obstacleStep_snd:
  "snd (obstacleStep ob (k, g)) = snd (collide (ob\<lparr>pos_z := pos_z ob + gameSpeed g\<rparr>) g)"
  by (simp add: obstacleStep_def Let_def split: prod.splits)

lemma collide_state:
  "state (snd (collide ob g)) = GAME_OVER \<longleftrightarrow>
     state g = GAME_OVER \<or>
     (ud_active ob \<and> pos_z ob > -1 \<and> pos_z ob < 1 \<and> \<bar>pos_x ob - player_x g\<bar> < 1.2 \<and>
      collisionType ob \<noteq> COIN \<and>
      \<not> (collisionType ob = JUMP \<and> player_y g > 1.2) \<and>
      \<not> (collisionType ob = DUCK \<and> isRolling g))"
  by (auto simp add: collide_def gameOver_def Let_def)


lemma foldr_obstacleStep_state:
  "state (snd (foldr obstacleStep xs (k, g))) = GAME_OVER \<longleftrightarrow>
     state g = GAME_OVER \<or>
     (\<exists>ob \<in> set xs. ud_active ob \<and> pos_z ob + gameSpeed g > -1 \<and> pos_z ob + gameSpeed g < 1 \<and>
        \<bar>pos_x ob - player_x g\<bar> < 1.2 \<and> collisionType ob \<noteq> COIN \<and>
        \<not> (collisionType ob = JUMP \<and> player_y g > 1.2) \<and>
        \<not> (collisionType ob = DUCK \<and> isRolling g))"
proof (induction xs)
  case Nil
  show ?case by simp
next
  case (Cons ob xs)
  obtain k' g' where acc: "foldr obstacleStep xs (k, g) = (k', g')"
    by (cases "foldr obstacleStep xs (k, g)")
  have f: "gameSpeed g' = gameSpeed g" "player_x g' = player_x g" "player_y g' = player_y g"
    "isRolling g' = isRolling g"
    using foldr_obstacleStep_frame [of gameSpeed xs k g] foldr_obstacleStep_frame [of player_x xs k g]
      foldr_obstacleStep_frame [of player_y xs k g] foldr_obstacleStep_frame [of isRolling xs k g]
    by (simp_all add: acc gameOver_def)
  have "state (snd (foldr obstacleStep (ob # xs) (k, g)))
      = state (snd (collide (ob\<lparr>pos_z := pos_z ob + gameSpeed g\<rparr>) g'))"
    by (simp add: acc obstacleStep_snd f)
  then show ?case
    using Cons.IH by (simp add: collide_state acc f) blast
qed


lemma scanObstacles_state:
  "state (scanObstacles g) = (state (snd (foldr obstacleStep (obstacles g) ([], g))))"
  "gameOverLog (scanObstacles g) = (gameOverLog (snd (foldr obstacleStep (obstacles g) ([], g))))"
  by (simp_all add: scanObstacles_def split: prod.splits)

lemma obstacleStep_autopilot:
  "obstacleStep ob (k, g\<lparr>autoPilotEnabled := b\<rparr>)
     = (fst (obstacleStep ob (k, g)), (snd (obstacleStep ob (k, g)))\<lparr>autoPilotEnabled := b\<rparr>)"
  by (simp add: obstacleStep_def collide_autopilot Let_def case_prod_beta)

lemma foldr_obstacleStep_autopilot:
  "foldr obstacleStep xs (k, g\<lparr>autoPilotEnabled := b\<rparr>)
     = (fst (foldr obstacleStep xs (k, g)), (snd (foldr obstacleStep xs (k, g)))\<lparr>autoPilotEnabled := b\<rparr>)"
proof (induction xs)
  case Nil
  show ?case by simp
next
  case (Cons ob xs)
  obtain k' g' where acc: "foldr obstacleStep xs (k, g) = (k', g')"
    by (cases "foldr obstacleStep xs (k, g)")
  show ?case
    by (simp add: Cons.IH acc obstacleStep_autopilot)
qed

lemma scanObstacles_autopilot:
  "scanObstacles (g\<lparr>autoPilotEnabled := b\<rparr>) = (scanObstacles g)\<lparr>autoPilotEnabled := b\<rparr>"
  by (simp add: scanObstacles_def foldr_obstacleStep_autopilot split: prod.splits)

section \<open>Collision rule\<close>

text \<open>
  C1: for an active hazard in contact (z strictly between -1 and 1, lateral distance from
  the player's x below 1.2), the collision test leaves the engine untouched exactly when
  the hazard is survived and calls game-over otherwise: a JUMP barrier is survived iff
  the player's y exceeds 1.2, a DUCK barrier iff the player is rolling, a SOLID never.
  Game-over puts the engine into the terminal state, in which a frame does nothing.
  The test and the whole obstacle loop do not read the autopilot flag: toggling it
  changes nothing but the flag itself. The loop ends in the terminal state iff it began
  there or some active hazard, advanced by the game speed, is in unsurvived contact.
\<close>

theorem collision_rule:
  "(ud_active ob \<and> -1 < pos_z ob \<and> pos_z ob < 1 \<and> \<bar>pos_x ob - player_x g\<bar> < 1.2 \<longrightarrow>
      (collisionType ob = JUMP \<longrightarrow>
         snd (collide ob g) = (if player_y g > 1.2 then g else gameOver g)) \<and>
      (collisionType ob = DUCK \<longrightarrow>
         snd (collide ob g) = (if isRolling g then g else gameOver g)) \<and>
      (collisionType ob = SOLID \<longrightarrow> snd (collide ob g) = gameOver g)) \<and>
   state (gameOver g) = GAME_OVER \<and> animate r (gameOver g) = Some (gameOver g) \<and>
   collide ob (g\<lparr>autoPilotEnabled := b\<rparr>)
     = (fst (collide ob g), (snd (collide ob g))\<lparr>autoPilotEnabled := b\<rparr>) \<and>
   scanObstacles (g\<lparr>autoPilotEnabled := b\<rparr>) = (scanObstacles g)\<lparr>autoPilotEnabled := b\<rparr> \<and>
   (state (scanObstacles g) = GAME_OVER \<longleftrightarrow>
      state g = GAME_OVER \<or>
      (\<exists>h \<in> set (obstacles g). ud_active h \<and>
         -1 < pos_z h + gameSpeed g \<and> pos_z h + gameSpeed g < 1 \<and>
         \<bar>pos_x h - player_x g\<bar> < 1.2 \<and> collisionType h \<noteq> COIN \<and>
         \<not> (collisionType h = JUMP \<and> player_y g > 1.2) \<and>
         \<not> (collisionType h = DUCK \<and> isRolling g)))"
proof -
  have a: "ud_active ob \<and> -1 < pos_z ob \<and> pos_z ob < 1 \<and> \<bar>pos_x ob - player_x g\<bar> < 1.2 \<longrightarrow>
      (collisionType ob = JUMP \<longrightarrow>
         snd (collide ob g) = (if player_y g > 1.2 then g else gameOver g)) \<and>
      (collisionType ob = DUCK \<longrightarrow>
         snd (collide ob g) = (if isRolling g then g else gameOver g)) \<and>
      (collisionType ob = SOLID \<longrightarrow> snd (collide ob g) = gameOver g)"
    by (simp add: collide_def Let_def)
  have b: "state (gameOver g) = GAME_OVER \<and> animate r (gameOver g) = Some (gameOver g)"
    by (simp add: gameOver_def animate_def)
  have c: "state (scanObstacles g) = GAME_OVER \<longleftrightarrow>
      state g = GAME_OVER \<or>
      (\<exists>h \<in> set (obstacles g). ud_active h \<and>
         -1 < pos_z h + gameSpeed g \<and> pos_z h + gameSpeed g < 1 \<and>
         \<bar>pos_x h - player_x g\<bar> < 1.2 \<and> collisionType h \<noteq> COIN \<and>
         \<not> (collisionType h = JUMP \<and> player_y g > 1.2) \<and>
         \<not> (collisionType h = DUCK \<and> isRolling g))"
    unfolding scanObstacles_state by (rule foldr_obstacleStep_state)
  show ?thesis
    using a b c collide_autopilot scanObstacles_autopilot by blast
qed

theorem collision_rule_witness:
  "ud_active wallAhead \<and> -1 < pos_z wallAhead \<and> pos_z wallAhead < 1 \<and>
   \<bar>pos_x wallAhead - player_x wallEngine\<bar> < 1.2 \<and> collisionType wallAhead = SOLID \<and>
   snd (collide wallAhead wallEngine) = gameOver wallEngine \<and>
   state (gameOver wallEngine) = GAME_OVER"
proof -
  have h: "ud_active wallAhead \<and> -1 < pos_z wallAhead \<and> pos_z wallAhead < 1 \<and>
      \<bar>pos_x wallAhead - player_x wallEngine\<bar> < 1.2"
    by (simp add: wallAhead_def wallEngine_def startedEngine_def initialEngine_def)
  have t: "collisionType wallAhead = SOLID" by (simp add: wallAhead_def)
  from collision_rule [of wallAhead wallEngine quietRand True] h t show ?thesis by simp
qed

subsection \<open>Score of a lane that is blocked beside\<close>

lemma analyzeStep_score:
  "laneScore (analyzeStep g ob a)
     \<le> (if collisionType ob \<noteq> COIN \<and> -4 < pos_z ob \<and> pos_z ob < 5 then -999999 else laneScore a)
       + (if collisionType ob = COIN then 50 else 0)"
proof -
  have p: "pos_z ob < 0 \<Longrightarrow> 0 \<le> 100000 / (1 - pos_z ob)" by simp
  show ?thesis
    using p by (cases "collisionType ob") (auto simp add: analyzeStep_def Let_def)
qed

lemma analyzeStep_isBlockedSide:
  "isBlockedSide (analyzeStep g ob a) \<longleftrightarrow>
     isBlockedSide a \<or> (collisionType ob \<noteq> COIN \<and> -4 < pos_z ob \<and> pos_z ob < 5)"
  by (cases "collisionType ob") (auto simp add: analyzeStep_def Let_def)

lemma analyzeStep_blocking:
  assumes "collisionType ob \<noteq> COIN" and "-4 < pos_z ob" and "pos_z ob < 5"
  shows "isBlockedSide (analyzeStep g ob a) \<and> laneScore (analyzeStep g ob a) \<le> -999999"
  using assms analyzeStep_score [of g ob a] by (simp add: analyzeStep_isBlockedSide)

lemma analyzeStep_blocked:
  assumes "isBlockedSide a" and "laneScore a \<le> -999999 + 50 * real n"
  shows "isBlockedSide (analyzeStep g ob a) \<and>
    laneScore (analyzeStep g ob a) \<le> -999999 + 50 * real (n + (if collisionType ob = COIN then 1 else 0))"
  using assms analyzeStep_score [of g ob a]
  by (auto simp add: analyzeStep_isBlockedSide split: if_splits)

lemma fold_analyzeStep_blocked:
  assumes "isBlockedSide a" and "laneScore a \<le> -999999 + 50 * real n"
  shows "isBlockedSide (fold (analyzeStep g) xs a) \<and>
    laneScore (fold (analyzeStep g) xs a)
      \<le> -999999 + 50 * real (n + length (filter (\<lambda>ob. collisionType ob = COIN) xs))"
  using assms
proof (induction xs arbitrary: a n)
  case Nil
  then show ?case by simp
next
  case (Cons ob xs)
  let ?m = "n + (if collisionType ob = COIN then 1 else 0)"
  have s: "isBlockedSide (analyzeStep g ob a) \<and>
      laneScore (analyzeStep g ob a) \<le> -999999 + 50 * real ?m"
    using Cons.prems by (rule analyzeStep_blocked)
  have "isBlockedSide (fold (analyzeStep g) xs (analyzeStep g ob a)) \<and>
    laneScore (fold (analyzeStep g) xs (analyzeStep g ob a))
      \<le> -999999 + 50 * real (?m + length (filter (\<lambda>ob. collisionType ob = COIN) xs))"
    using s by (intro Cons.IH) simp_all
  then show ?case by (cases "collisionType ob = COIN") simp_all
qed

lemma fold_analyzeStep_after_block:
  assumes "collisionType h \<noteq> COIN" and "-4 < pos_z h" and "pos_z h < 5"
  shows "isBlockedSide (fold (analyzeStep g) (pre @ h # post) a) \<and>
    laneScore (fold (analyzeStep g) (pre @ h # post) a)
      \<le> -999999 + 50 * real (length (filter (\<lambda>ob. collisionType ob = COIN) post))"
proof -
  let ?a = "analyzeStep g h (fold (analyzeStep g) pre a)"
  have "isBlockedSide ?a \<and> laneScore ?a \<le> -999999"
    using assms by (rule analyzeStep_blocking)
  then have "isBlockedSide ?a" "laneScore ?a \<le> -999999 + 50 * real 0" by simp_all
  then have "isBlockedSide (fold (analyzeStep g) post ?a) \<and>
    laneScore (fold (analyzeStep g) post ?a)
      \<le> -999999 + 50 * real (0 + length (filter (\<lambda>ob. collisionType ob = COIN) post))"
    by (rule fold_analyzeStep_blocked)
  then show ?thesis by simp
qed

lemma laneObs_member:
  assumes "h \<in> set (obstacles g)" and "ud_active h" and "ud_lane h = l"
    and "-4 < pos_z h" and "pos_z h < 5" and "4 \<le> rng"
  shows "h \<in> set (laneObs g l rng)"
  using assms by (simp add: laneObs_def)

lemma laneObs_behind:
  assumes "laneObs g l rng = pre @ h # post" and "ob \<in> set post"
  shows "pos_z ob \<le> pos_z h"
proof -
  have "sorted (map (\<lambda>ob. - pos_z ob) (laneObs g l rng))"
    unfolding laneObs_def by (rule sorted_sort_key)
  then have "sorted (map (\<lambda>ob. - pos_z ob) (h # post))"
    by (simp add: assms(1) sorted_append)
  then show ?thesis using assms(2) by auto
qed

section \<open>Lane analysis of a lane blocked beside\<close>

text \<open>
  C6, as stated: the returned score of a lane with an active non-coin hazard in the
  blocked-beside window equals the sentinel, whatever coins the lane holds. The code
  refutes it: with a wall at z = 2 and a coin at z = -100 in the right lane, the lane is
  marked blocked beside and its score is the sentinel plus the coin bonus.
\<close>

theorem blocked_lane_score_counterexample:
  "isBlockedSide (analyzeLane sideBlockedEngine 1 (800 + gameSpeed sideBlockedEngine * 400)) \<and>
   laneScore (analyzeLane sideBlockedEngine 1 (800 + gameSpeed sideBlockedEngine * 400)) = -999949 \<and>
   laneScore (analyzeLane sideBlockedEngine 1 (800 + gameSpeed sideBlockedEngine * 400)) \<noteq> -999999"
  by (simp add: analyzeLane_def laneObs_def analyzeStep_def initialAnalysis_def
      sideBlockedEngine_def startedEngine_def initialEngine_def Let_def)

text \<open>
  C6, amended: if a lane holds an active non-coin hazard with \<open>-4 < z < 5\<close> (and the
  lookahead range is at least 4, as it always is in \<open>updateAI\<close>), the analysis marks the
  lane blocked beside, and the score is reset to the sentinel -999999 when that hazard is
  scanned. The reset overrides everything scanned before the hazard; what is scanned
  after it still counts, so the returned score is at most the sentinel plus 50 for every
  coin of the lane that lies at or behind the hazard's z in scan order, plus 10 in the
  centre lane.
\<close>

theorem blocked_lane_score:
  assumes "h \<in> set (obstacles g)" and "ud_active h" and "ud_lane h = l"
    and "collisionType h \<noteq> COIN" and "-4 < pos_z h" and "pos_z h < 5" and "4 \<le> rng"
  shows "isBlockedSide (analyzeLane g l rng) \<and>
    laneScore (analyzeLane g l rng)
      \<le> -999999
        + 50 * real (length (filter (\<lambda>ob. collisionType ob = COIN \<and> pos_z ob \<le> pos_z h)
                               (laneObs g l rng)))
        + (if l = 0 then 10 else 0)"
proof -
  have "h \<in> set (laneObs g l rng)"
    using assms(1,2,3,5,6,7) by (rule laneObs_member)
  then obtain pre post where sp: "laneObs g l rng = pre @ h # post"
    by (meson split_list)
  let ?a = "fold (analyzeStep g) (laneObs g l rng) (initialAnalysis l)"
  have b: "isBlockedSide ?a \<and>
      laneScore ?a \<le> -999999 + 50 * real (length (filter (\<lambda>ob. collisionType ob = COIN) post))"
    unfolding sp using assms(4,5,6) by (rule fold_analyzeStep_after_block)
  have "filter (\<lambda>ob. collisionType ob = COIN) post
      = filter (\<lambda>ob. collisionType ob = COIN \<and> pos_z ob \<le> pos_z h) post"
    using laneObs_behind [OF sp] by (intro filter_cong) auto
  then have "length (filter (\<lambda>ob. collisionType ob = COIN) post)
      \<le> length (filter (\<lambda>ob. collisionType ob = COIN \<and> pos_z ob \<le> pos_z h) (laneObs g l rng))"
    by (simp add: sp)
  then have "real (length (filter (\<lambda>ob. collisionType ob = COIN) post))
      \<le> real (length (filter (\<lambda>ob. collisionType ob = COIN \<and> pos_z ob \<le> pos_z h) (laneObs g l rng)))"
    by (rule of_nat_mono)
  with b have "isBlockedSide ?a \<and> laneScore ?a \<le> -999999 +
      50 * real (length (filter (\<lambda>ob. collisionType ob = COIN \<and> pos_z ob \<le> pos_z h) (laneObs g l rng)))"
    by linarith
  then show ?thesis
    by (cases "l = 0") (simp_all add: analyzeLane_def Let_def)
qed

theorem blocked_lane_score_witness:
  "\<lparr> pos_x = 4, pos_z = 2, ud_active = True, ud_lane = 1, collisionType = SOLID \<rparr>
     \<in> set (obstacles sideBlockedEngine) \<and>
   isBlockedSide (analyzeLane sideBlockedEngine 1 1040) \<and>
   laneScore (analyzeLane sideBlockedEngine 1 1040)
     \<le> -999999
       + 50 * real (length (filter (\<lambda>ob. collisionType ob = COIN \<and> pos_z ob \<le> 2)
                              (laneObs sideBlockedEngine 1 1040)))
       + 0"
proof -
  let ?h = "\<lparr> pos_x = 4, pos_z = 2, ud_active = True, ud_lane = 1, collisionType = SOLID \<rparr>"
  have m: "?h \<in> set (obstacles sideBlockedEngine)"
    by (simp add: sideBlockedEngine_def)
  have "isBlockedSide (analyzeLane sideBlockedEngine 1 1040) \<and>
    laneScore (analyzeLane sideBlockedEngine 1 1040)
      \<le> -999999
        + 50 * real (length (filter (\<lambda>ob. collisionType ob = COIN \<and> pos_z ob \<le> pos_z ?h)
                               (laneObs sideBlockedEngine 1 1040)))
        + (if (1::int) = 0 then 10 else 0)"
    by (rule blocked_lane_score [OF m]) simp_all
  with m show ?thesis by simp
qed

lemma detour_analysis:
  "analyzeLane detourEngine (-1) (26002 / 25) = \<lparr> lane = -1, isDeadly = False, isBlockedSide = False,
     action = ActJump, laneScore = 4900, distanceToThreat = 100, threatType = Some JUMP,
     firstSolidDist = 9999 \<rparr>"
  "analyzeLane detourEngine 0 (26002 / 25) = \<lparr> lane = 0, isDeadly = True, isBlockedSide = False,
     action = ActNone, laneScore = 406010 / 101, distanceToThreat = 100, threatType = Some SOLID,
     firstSolidDist = 100 \<rparr>"
  "analyzeLane detourEngine 1 (26002 / 25) = \<lparr> lane = 1, isDeadly = False, isBlockedSide = False,
     action = ActNone, laneScore = 5000, distanceToThreat = 9999, threatType = None,
     firstSolidDist = 9999 \<rparr>"
  by (simp_all add: analyzeLane_def laneObs_def analyzeStep_def initialAnalysis_def
      detourEngine_def startedEngine_def initialEngine_def Let_def)

lemma detour_range: "800 + gameSpeed detourEngine * 400 = (26002 / 25)"
  by (simp add: detourEngine_def startedEngine_def initialEngine_def)

lemma detour_updateAI_navigate:
  "updateAI detourEngine = navigate
     [analyzeLane detourEngine (-1) (26002 / 25), analyzeLane detourEngine 0 (26002 / 25),
      analyzeLane detourEngine 1 (26002 / 25)] detourEngine"
proof -
  have c: "aiLaneChangeCooldown detourEngine = 0"
    by (simp add: detourEngine_def startedEngine_def initialEngine_def)
  show ?thesis
    unfolding updateAI_def Let_def by (simp only: c detour_range list.map if_False less_irrefl)
qed

lemma detour_sorted:
  "sort_key (\<lambda>a. - laneScore a)
     [analyzeLane detourEngine (-1) (26002 / 25), analyzeLane detourEngine 0 (26002 / 25),
      analyzeLane detourEngine 1 (26002 / 25)]
   = [analyzeLane detourEngine 1 (26002 / 25), analyzeLane detourEngine (-1) (26002 / 25),
      analyzeLane detourEngine 0 (26002 / 25)]"
  by (simp add: detour_analysis)

lemma detour_navigate:
  "map_option currentLane (navigate
     [analyzeLane detourEngine (-1) (26002 / 25), analyzeLane detourEngine 0 (26002 / 25),
      analyzeLane detourEngine 1 (26002 / 25)] detourEngine) = Some 1"
proof -
  have c: "aiLaneChangeCooldown detourEngine = 0" "gameSpeed detourEngine = 0.6002"
    "currentLane detourEngine = -1"
    by (simp_all add: detourEngine_def startedEngine_def initialEngine_def)
  show ?thesis
    unfolding navigate_def Let_def detour_sorted
    by (simp add: c detour_analysis emergencyBranch_def optimizationBranch_def
      reflexExecution_def setLane_def)
qed

section \<open>Lane steps of the navigator\<close>

text \<open>
  C2 fails in the optimization branch. With the player in the left lane, a jump barrier
  ahead in that lane, a wall ahead in the centre lane and the right lane free, there is no
  emergency, the cooldown is over, and the right lane beats the current lane by more than
  the margin: \<open>updateAI\<close> sets the current lane from -1 to 1 in a single call.
\<close>

theorem navigator_double_lane_step:
  "autoPilotEnabled detourEngine \<and> state detourEngine = PLAYING \<and>
   currentLane detourEngine = -1 \<and>
   map_option currentLane (updateAI detourEngine) = Some 1"
proof -
  have "autoPilotEnabled detourEngine \<and> state detourEngine = PLAYING \<and>
      currentLane detourEngine = -1"
    by (simp add: detourEngine_def startedEngine_def initialEngine_def)
  then show ?thesis
    by (simp only: detour_updateAI_navigate detour_navigate)
qed

section \<open>Coin bonus and the reported score\<close>

lemma coin_frame:
  "animate quietRand coinEngine = Some
     \<lparr>state = PLAYING, score = 512, distanceTraveled = 6003 / 5000,
      gameSpeed = 1501 / 2500, currentLane = 0, player_x = 0, player_y = 1,
      playerVelocityY = 0, isJumping = False, isRolling = False,
      rollTimer = 0, autoPilotEnabled = False, lastSafeLane = 0,
      aiLaneChangeCooldown = 0,
      obstacles =
        [\<lparr>pos_x = 0, pos_z = - (2249 / 2500), ud_active = False, ud_lane = 0,
            collisionType = COIN\<rparr>],
      scoreLog = [6, 12], gameOverLog = [], aiLog = []\<rparr>"
  by (simp add: animate_def update_def updateBeforeSpawn_def clockTick_def physics_def
      scanObstacles_def obstacleStep_def collide_def shouldSpawn_def spawnZ_def minGap_def
      spawnObstacleRow_def spawnLane_def chooseSafeLane_def possibleLanes_def
      coinEngine_def startedEngine_def initialEngine_def config_def quietRand_def Let_def)

lemma coin_next_frame:
  "animate quietRand
     \<lparr>state = PLAYING, score = 512, distanceTraveled = 6003 / 5000,
      gameSpeed = 1501 / 2500, currentLane = 0, player_x = 0, player_y = 1,
      playerVelocityY = 0, isJumping = False, isRolling = False,
      rollTimer = 0, autoPilotEnabled = False, lastSafeLane = 0,
      aiLaneChangeCooldown = 0,
      obstacles =
        [\<lparr>pos_x = 0, pos_z = - (2249 / 2500), ud_active = False, ud_lane = 0,
            collisionType = COIN\<rparr>],
      scoreLog = [6, 12], gameOverLog = [], aiLog = []\<rparr>
   = Some
     \<lparr>state = PLAYING, score = 18, distanceTraveled = 4503 / 2500,
      gameSpeed = 3003 / 5000, currentLane = 0, player_x = 0, player_y = 1,
      playerVelocityY = 0, isJumping = False, isRolling = False,
      rollTimer = 0, autoPilotEnabled = False, lastSafeLane = - 1,
      aiLaneChangeCooldown = 0,
      obstacles =
        [\<lparr>pos_x = 0, pos_z = - (299 / 1000), ud_active = False, ud_lane = 0,
            collisionType = COIN\<rparr>],
      scoreLog = [6, 12, 18], gameOverLog = [], aiLog = []\<rparr>"
  by (simp add: animate_def update_def updateBeforeSpawn_def clockTick_def physics_def
      scanObstacles_def obstacleStep_def collide_def shouldSpawn_def spawnZ_def minGap_def
      spawnObstacleRow_def spawnLane_def chooseSafeLane_def possibleLanes_def
      config_def quietRand_def Let_def)

lemma update_ignores_score: "update r (g\<lparr>score := s\<rparr>) = update r g"
proof -
  have "clockTick (g\<lparr>score := s\<rparr>) = clockTick g"
    by (simp add: clockTick_def)
  then show ?thesis
    by (simp add: update_def updateBeforeSpawn_def)
qed

text \<open>
  C3 fails on the score. A coin in contact adds 500 to the score field and is
  deactivated without game-over, but \<open>onScoreChange\<close> has already been called in that
  frame with the distance score, and the next frame recomputes the score from the
  distance alone: the score field goes 512, then 18, and the reported scores are
  6, 12, 18, none of which contains the bonus.
\<close>

theorem coin_bonus_lost:
  "map_option score (animate quietRand coinEngine) = Some 512 \<and>
   map_option scoreLog (animate quietRand coinEngine) = Some [6, 12] \<and>
   map_option (map ud_active \<circ> obstacles) (animate quietRand coinEngine) = Some [False] \<and>
   map_option state (animate quietRand coinEngine) = Some PLAYING \<and>
   map_option score (animate quietRand coinEngine \<bind> animate quietRand) = Some 18 \<and>
   map_option scoreLog (animate quietRand coinEngine \<bind> animate quietRand) = Some [6, 12, 18]"
  by (simp add: coin_frame coin_next_frame)

subsection \<open>The obstacle list stays spaced\<close>























section \<open>Game-over is reported once\<close>



text \<open>A wall in contact ends the run with one report.\<close>

lemma wall_hit_reported_once:
  "map_option state (animate quietRand wallEngine) = Some GAME_OVER \<and>
   map_option gameOverLog (animate quietRand wallEngine) = Some [12]"
  by (simp add: animate_def update_def updateBeforeSpawn_def clockTick_def physics_def
      scanObstacles_def obstacleStep_def collide_def gameOver_def shouldSpawn_def spawnZ_def
      minGap_def spawnObstacleRow_def spawnLane_def chooseSafeLane_def possibleLanes_def
      wallEngine_def wallAhead_def startedEngine_def initialEngine_def config_def quietRand_def
      Let_def)





section \<open>Spawn gate\<close>




end
